theory Spec2Isabelle
  imports Complex_Main "HOL-Library.Word" "HOL-Library.AList"
begin

section \<open>Data model of \<^verbatim>\<open>main.go\<close>\<close>

text \<open>
  \<^verbatim>\<open>type tokenType int\<close> with the three constants \<^verbatim>\<open>show = 0\<close>, \<^verbatim>\<open>hide = 1\<close>,
  \<^verbatim>\<open>wait = 2\<close>. Only these three values are ever built by the program.
  (\<^verbatim>\<open>show\<close> is a keyword of the proof language, hence the suffix.)
\<close>

datatype tokenType = show_t | hide_t | wait_t

text \<open>Go's \<^verbatim>\<open>int\<close> on a 64-bit platform: two's complement, \<^verbatim>\<open>+\<close> wraps around.\<close>

type_synonym go_int = "64 word"

definition defaultWait :: go_int where
  "defaultWait = 1000"

text \<open>\<^verbatim>\<open>type token struct { Type tokenType; Id string; Wait int }\<close>\<close>

record token =
  Type :: tokenType
  Id' :: string
  Wait :: go_int

text \<open>
  A run-time panic of Go (an index or a slice bound out of range). Nothing in the program
  recovers from it: the process prints the panic and exits with status 2.
\<close>

datatype panic = IndexOutOfRange

section \<open>IEEE 754 binary32 (\<^verbatim>\<open>float32\<close>)\<close>

text \<open>
  A \<^verbatim>\<open>float32\<close> is a finite rational (\<open>Fin 0\<close> is \<open>+0\<close>), the negative zero, an
  infinity or a NaN. Every operation computes the exact rational result and rounds it once,
  to nearest with ties to even, into 24 bits of precision with exponents from \<open>-126\<close> to
  \<open>127\<close> (gradual underflow below, overflow to an infinity above). The Go specification
  lets a compiler fuse a multiplication with the addition that follows it; here every
  operation rounds on its own, as in the default build for amd64.
\<close>

datatype float32 = Fin rat | NegZero | PInf | NInf | NaN

fun is_nan :: "float32 \<Rightarrow> bool" where
  "is_nan NaN = True"
| "is_nan _ = False"

fun is_inf :: "float32 \<Rightarrow> bool" where
  "is_inf PInf = True"
| "is_inf NInf = True"
| "is_inf _ = False"

fun is_zero :: "float32 \<Rightarrow> bool" where
  "is_zero (Fin q) = (q = 0)"
| "is_zero NegZero = True"
| "is_zero _ = False"

text \<open>The sign bit: \<open>True\<close> for a negative number, \<open>-0\<close> and \<open>-Inf\<close>.\<close>

fun sign :: "float32 \<Rightarrow> bool" where
  "sign (Fin q) = (q < 0)"
| "sign NegZero = True"
| "sign NInf = True"
| "sign _ = False"

fun val :: "float32 \<Rightarrow> rat" where
  "val (Fin q) = q"
| "val _ = 0"

definition zero :: "bool \<Rightarrow> float32" where
  "zero s = (if s then NegZero else Fin 0)"

definition inf :: "bool \<Rightarrow> float32" where
  "inf s = (if s then NInf else PInf)"

text \<open>The number of binary digits of a positive integer (0 otherwise).\<close>

function bitlen :: "int \<Rightarrow> int" where
  "bitlen n = (if 0 < n then 1 + bitlen (n div 2) else 0)"
  by pat_completeness auto
termination
  by (relation "measure nat") auto

declare bitlen.simps [simp del]

text \<open>\<open>ilog2 a\<close> is \<open>\<lfloor>log\<^sub>2 a\<rfloor>\<close> for a rational \<open>a > 0\<close>, computed on integers.\<close>

definition ilog2 :: "rat \<Rightarrow> int" where
  "ilog2 a = (if 1 \<le> a then bitlen \<lfloor>a\<rfloor> - 1 else - bitlen (\<lceil>1 / a\<rceil> - 1))"

text \<open>Rounding to the nearest integer, ties to the even one.\<close>

definition rhe :: "rat \<Rightarrow> int" where
  "rhe x = (let f = \<lfloor>x\<rfloor>; d = x - of_int f in
            if d < 1 / 2 then f
            else if 1 / 2 < d then f + 1
            else if even f then f else f + 1)"

text \<open>
  \<open>rnd s a\<close> rounds the magnitude \<open>a \<ge> 0\<close> with sign \<open>s\<close>: the unit in the last place is
  \<open>2 powi (e - 23)\<close> for the exponent \<open>e\<close> of \<open>a\<close>, not below \<open>-126\<close>.
\<close>

definition rnd :: "bool \<Rightarrow> rat \<Rightarrow> float32" where
  "rnd s a =
     (if a = 0 then zero s
      else let e = max (ilog2 a) (- 126);
               u = 2 powi (e - 23);
               r = of_int (rhe (a / u)) * u
           in if 2 powi 128 \<le> r then inf s
              else if r = 0 then zero s
              else Fin (if s then - r else r))"

text \<open>The conversion \<^verbatim>\<open>float32(i)\<close> of an integer.\<close>

definition f32_of_int :: "int \<Rightarrow> float32" where
  "f32_of_int i = (if i = 0 then Fin 0 else rnd (i < 0) \<bar>of_int i\<bar>)"

definition f32_add :: "float32 \<Rightarrow> float32 \<Rightarrow> float32" where
  "f32_add x y =
     (if is_nan x \<or> is_nan y then NaN
      else if is_inf x \<and> is_inf y then (if sign x = sign y then x else NaN)
      else if is_inf x then x
      else if is_inf y then y
      else let q = val x + val y in
           if q = 0 then zero (sign x \<and> sign y) else rnd (q < 0) \<bar>q\<bar>)"

definition f32_mul :: "float32 \<Rightarrow> float32 \<Rightarrow> float32" where
  "f32_mul x y =
     (if is_nan x \<or> is_nan y then NaN
      else if (is_inf x \<and> is_zero y) \<or> (is_zero x \<and> is_inf y) then NaN
      else let s = (sign x \<noteq> sign y) in
           if is_inf x \<or> is_inf y then inf s
           else rnd s \<bar>val x * val y\<bar>)"

definition f32_div :: "float32 \<Rightarrow> float32 \<Rightarrow> float32" where
  "f32_div x y =
     (if is_nan x \<or> is_nan y then NaN
      else if (is_inf x \<and> is_inf y) \<or> (is_zero x \<and> is_zero y) then NaN
      else let s = (sign x \<noteq> sign y) in
           if is_inf x \<or> is_zero y then inf s
           else if is_inf y then zero s
           else rnd s \<bar>val x / val y\<bar>)"

text \<open>The comparison \<^verbatim>\<open><=\<close> of IEEE 754: false when a NaN is involved, and \<open>-0 = +0\<close>.\<close>

fun f32_le :: "float32 \<Rightarrow> float32 \<Rightarrow> bool" where
  "f32_le NaN _ = False"
| "f32_le _ NaN = False"
| "f32_le NInf _ = True"
| "f32_le _ PInf = True"
| "f32_le PInf _ = False"
| "f32_le _ NInf = False"
| "f32_le x y = (val x \<le> val y)"

section \<open>The Go library functions the program calls\<close>

text \<open>Indexing \<^verbatim>\<open>xs[i]\<close>: a run-time panic when the index is out of range.\<close>

definition index :: "'a list \<Rightarrow> int \<Rightarrow> panic + 'a" where
  "index xs i = (if 0 \<le> i \<and> i < int (length xs) then Inr (xs ! nat i) else Inl IndexOutOfRange)"

text \<open>\<^verbatim>\<open>strings.HasPrefix(s, prefix)\<close>\<close>

definition HasPrefix :: "string \<Rightarrow> string \<Rightarrow> bool" where
  "HasPrefix s p = (take (length p) s = p)"

text \<open>
  \<^verbatim>\<open>strings.Split(s, sep)\<close> for a separator of one byte (the program only splits on
  \<^verbatim>\<open>" "\<close>): the pieces between the separators, one more than there are separators, so
  never an empty slice.
\<close>

fun Split :: "string \<Rightarrow> char \<Rightarrow> string list" where
  "Split [] sep = [[]]"
| "Split (c # s) sep =
     (if c = sep then [] # Split s sep
      else let pieces = Split s sep in (c # hd pieces) # tl pieces)"

text \<open>\<^verbatim>\<open>strings.Index(s, substr)\<close>: the index of the first instance, or \<open>-1\<close>.\<close>

fun Index :: "string \<Rightarrow> string \<Rightarrow> int" where
  "Index [] sub = (if sub = [] then 0 else - 1)"
| "Index (c # s) sub =
     (if HasPrefix (c # s) sub then 0
      else let i = Index s sub in if i < 0 then - 1 else i + 1)"

text \<open>
  \<^verbatim>\<open>strconv.Atoi(s)\<close>, that is \<^verbatim>\<open>ParseInt(s, 10, 0)\<close> on a 64-bit platform. The two
  errors of \<^verbatim>\<open>strconv.NumError\<close>.
\<close>

datatype NumError = ErrSyntax | ErrRange

definition is_digit :: "char \<Rightarrow> bool" where
  "is_digit c = (of_char (CHR ''0'') \<le> (of_char c :: nat) \<and> (of_char c :: nat) \<le> of_char (CHR ''9''))"

definition digit_val :: "char \<Rightarrow> int" where
  "digit_val c = int (of_char c) - int (of_char (CHR ''0''))"

text \<open>
  The digit loop of \<^verbatim>\<open>ParseUint\<close> in base 10 over \<^verbatim>\<open>uint64\<close>: a byte that is no
  digit is a syntax error with value 0; an overflow, noticed before the rest of the
  string is read, is a range error with the value \<open>2^64 - 1\<close>.
\<close>

fun parseDigits :: "string \<Rightarrow> int \<Rightarrow> int \<times> NumError option" where
  "parseDigits [] n = (n, None)"
| "parseDigits (c # s) n =
     (if \<not> is_digit c then (0, Some ErrSyntax)
      else if (2 ^ 64 - 1) div 10 + 1 \<le> n then (2 ^ 64 - 1, Some ErrRange)
      else if 2 ^ 64 - 1 < n * 10 + digit_val c then (2 ^ 64 - 1, Some ErrRange)
      else parseDigits s (n * 10 + digit_val c))"

definition ParseUint :: "string \<Rightarrow> int \<times> NumError option" where
  "ParseUint s = (if s = [] then (0, Some ErrSyntax) else parseDigits s 0)"

text \<open>
  \<^verbatim>\<open>ParseInt\<close>: an optional sign, then \<^verbatim>\<open>ParseUint\<close>. A syntax error returns 0; a value
  that does not fit \<^verbatim>\<open>int64\<close> is a range error and returns the nearest bound.
\<close>

definition Atoi :: "string \<Rightarrow> go_int \<times> NumError option" where
  "Atoi s =
     (if s = [] then (0, Some ErrSyntax)
      else let neg = (hd s = CHR ''-'');
               s1 = (if hd s = CHR ''+'' \<or> hd s = CHR ''-'' then tl s else s);
               (un, err) = ParseUint s1
           in if err = Some ErrSyntax then (0, Some ErrSyntax)
              else if \<not> neg \<and> 2 ^ 63 \<le> un then (word_of_int (2 ^ 63 - 1), Some ErrRange)
              else if neg \<and> 2 ^ 63 < un then (word_of_int (- (2 ^ 63)), Some ErrRange)
              else (word_of_int (if neg then - un else un), None))"

text \<open>Decimal output of an integer (\<^verbatim>\<open>%d\<close>, and \<^verbatim>\<open>{{ .TotalMs }}\<close> in a template).\<close>

function digits :: "int \<Rightarrow> string" where
  "digits n = (if n < 10 then [char_of (48 + n)]
               else digits (n div 10) @ [char_of (48 + n mod 10)])"
  by pat_completeness auto
termination
  by (relation "measure nat") auto

declare digits.simps [simp del]

definition itoa :: "int \<Rightarrow> string" where
  "itoa i = (if i < 0 then CHR ''-'' # digits (- i) else digits i)"

text \<open>
  \<^verbatim>\<open>bufio.Reader.ReadLine\<close> on a reader of the default size (4096 bytes) over the bytes
  that are left: \<open>None\<close> at the end of the input (\<^verbatim>\<open>io.EOF\<close>), else the next line without
  its end (\<^verbatim>\<open>"\n"\<close> or \<^verbatim>\<open>"\r\n"\<close>) and the bytes after it. A line that does not fit the
  buffer comes in pieces of 4096 bytes; \<^verbatim>\<open>main\<close> ignores \<^verbatim>\<open>isPrefix\<close> and takes each
  piece for a line.
\<close>

definition bufSize :: nat where
  "bufSize = 4096"

definition dropCR :: "string \<Rightarrow> string" where
  "dropCR l = (if l \<noteq> [] \<and> last l = CHR 0x0D then butlast l else l)"

definition ReadLine :: "string \<Rightarrow> (string \<times> string) option" where
  "ReadLine r =
     (if r = [] then None
      else let w = take bufSize r; l = takeWhile (\<lambda>c. c \<noteq> CHR 0x0A) w in
           if length l < length w then Some (dropCR l, drop (length l + 1) r)
           else if bufSize \<le> length r
           then Some (dropCR w, drop (length (dropCR w)) r)
           else Some (r, []))"

section \<open>The tokenizer\<close>

text \<open>
  What a run does that can be seen from outside, in order: the lines it prints on the
  standard output (each with the values it formats) and the file it writes.
\<close>

datatype effect =
    Print_usage
  | Print_wait_error string NumError
  | Print_token token
  | Print_step float32
  | Print_totalMs go_int
  | WriteFile string string

text \<open>\<^verbatim>\<open>parseShow\<close> (lines 29-36) and \<^verbatim>\<open>parseHide\<close> (lines 38-45).\<close>

definition parseShow :: "string \<Rightarrow> panic + token" where
  "parseShow line =
     (let tokens = Split line (CHR '' '') in
      case index tokens 1 of
        Inl p \<Rightarrow> Inl p
      | Inr id1 \<Rightarrow> Inr \<lparr>Type = show_t, Id' = id1, Wait = defaultWait\<rparr>)"

definition parseHide :: "string \<Rightarrow> panic + token" where
  "parseHide line =
     (let tokens = Split line (CHR '' '') in
      case index tokens 1 of
        Inl p \<Rightarrow> Inl p
      | Inr id1 \<Rightarrow> Inr \<lparr>Type = hide_t, Id' = id1, Wait = defaultWait\<rparr>)"

text \<open>
  \<^verbatim>\<open>parseWait\<close> (lines 47-58): the error of \<^verbatim>\<open>Atoi\<close> is printed and nothing else is done
  about it; the token carries the value \<^verbatim>\<open>Atoi\<close> returned. The result is what was
  printed, and the panic or the token.
\<close>

definition parseWait :: "string \<Rightarrow> effect list \<times> (panic + token)" where
  "parseWait line =
     (let tokens = Split line (CHR '' '') in
      case index tokens 1 of
        Inl p \<Rightarrow> ([], Inl p)
      | Inr field \<Rightarrow>
          (let (val, err) = Atoi field in
           ((case err of None \<Rightarrow> [] | Some e \<Rightarrow> [Print_wait_error field e]),
            Inr \<lparr>Type = wait_t, Id' = [], Wait = val\<rparr>)))"

text \<open>
  The body of the reading loop of \<^verbatim>\<open>main\<close> (lines 85-96) for one line: three
  \<^verbatim>\<open>if\<close>s in a row, each appending to \<^verbatim>\<open>tokens\<close>.
\<close>

definition lineTokens :: "string \<Rightarrow> token list \<Rightarrow> effect list \<times> (panic + token list)" where
  "lineTokens line tokens =
     (case (if HasPrefix line ''show''
            then (case parseShow line of Inl p \<Rightarrow> Inl p | Inr t \<Rightarrow> Inr (tokens @ [t]))
            else Inr tokens) of
        Inl p \<Rightarrow> ([], Inl p)
      | Inr tokens1 \<Rightarrow>
     (case (if HasPrefix line ''hide''
            then (case parseHide line of Inl p \<Rightarrow> Inl p | Inr t \<Rightarrow> Inr (tokens1 @ [t]))
            else Inr tokens1) of
        Inl p \<Rightarrow> ([], Inl p)
      | Inr tokens2 \<Rightarrow>
     (if HasPrefix line ''wait''
      then (case parseWait line of
              (out, Inl p) \<Rightarrow> (out, Inl p)
            | (out, Inr t) \<Rightarrow> (out, Inr (tokens2 @ [t])))
      else ([], Inr tokens2))))"

text \<open>The reading loop (lines 79-97), over the bytes of the script that are left.\<close>

function readLoop :: "string \<Rightarrow> token list \<Rightarrow> effect list \<times> (panic + token list)" where
  "readLoop r tokens =
     (case ReadLine r of
        None \<Rightarrow> ([], Inr tokens)
      | Some (line, r') \<Rightarrow>
          (case lineTokens line tokens of
             (out, Inl p) \<Rightarrow> (out, Inl p)
           | (out, Inr tokens') \<Rightarrow>
               (case readLoop r' tokens' of (out', res) \<Rightarrow> (out @ out', res))))"
  by pat_completeness auto

termination
  by (relation "measure (\<lambda>(r, tokens). length r)")
    (auto simp: ReadLine_def Let_def bufSize_def dropCR_def split: if_splits)

declare readLoop.simps [simp del]

section \<open>The timeline compiler\<close>

text \<open>
  \<^verbatim>\<open>calculateStep\<close> (lines 116-125). \<^verbatim>\<open>totalMs\<close> is an \<^verbatim>\<open>int\<close>: the sum wraps around.
  The step is \<^verbatim>\<open>1000.0 / float32(totalMs) * 100.0\<close> in \<^verbatim>\<open>float32\<close>; nothing is raised
  when \<^verbatim>\<open>totalMs\<close> is 0.
\<close>

fun sumWaits :: "token list \<Rightarrow> go_int \<Rightarrow> go_int" where
  "sumWaits [] totalMs = totalMs"
| "sumWaits (t # ts) totalMs =
     sumWaits ts (if Type t = wait_t then totalMs + Wait t else totalMs)"

definition calculateStep :: "token list \<Rightarrow> float32 \<times> go_int" where
  "calculateStep tokens =
     (let totalMs = sumWaits tokens 0 in
      (f32_mul (f32_div (Fin 1000) (f32_of_int (sint totalMs))) (Fin 100), totalMs))"

text \<open>\<^verbatim>\<open>type keyframe struct { Stage float32; Opacity float32 }\<close>\<close>

record keyframe =
  Stage :: float32
  Opacity :: float32

text \<open>
  The map \<^verbatim>\<open>map[string][]keyframe\<close> as an association list with one entry per key, in
  the order the keys were first stored. Go fixes no order on a map: where the program
  ranges over one, the order is a parameter of the model.
\<close>

type_synonym keyframes = "(string \<times> keyframe list) list"

text \<open>\<^verbatim>\<open>keyframes[k]\<close> (the nil slice for a missing key) and \<^verbatim>\<open>append\<close> to it.\<close>

definition lookup :: "keyframes \<Rightarrow> string \<Rightarrow> keyframe list" where
  "lookup m k = (case map_of m k of None \<Rightarrow> [] | Some v \<Rightarrow> v)"

definition appendKf :: "keyframes \<Rightarrow> string \<Rightarrow> keyframe \<Rightarrow> keyframes" where
  "appendKf m k kf = AList.update k (lookup m k @ [kf]) m"

text \<open>The state of the loop of \<^verbatim>\<open>calculateKeyframes\<close> (lines 133-136).\<close>

record kstate =
  currentStage :: float32
  nextStage :: float32
  kframes :: keyframes

text \<open>One turn of the loop (lines 139-155).\<close>

definition seed :: "keyframes \<Rightarrow> token \<Rightarrow> keyframes" where
  "seed m t =
     (if Type t = show_t \<or> Type t = hide_t
      then (if map_of m (Id' t) = None
            then appendKf (AList.update (Id' t) [] m) (Id' t) \<lparr>Stage = Fin 0, Opacity = Fin 0\<rparr>
            else m)
      else m)"

definition kstep :: "float32 \<Rightarrow> kstate \<Rightarrow> token \<Rightarrow> kstate" where
  "kstep step st t =
     (let m = seed (kframes st) t in
      case Type t of
        wait_t \<Rightarrow>
          (let cur = f32_add (currentStage st)
                       (f32_mul (f32_div (f32_of_int (sint (Wait t))) (Fin 1000)) step)
           in \<lparr>currentStage = cur, nextStage = f32_add cur step, kframes = m\<rparr>)
      | show_t \<Rightarrow>
          st\<lparr>kframes :=
               appendKf (appendKf m (Id' t) \<lparr>Stage = currentStage st, Opacity = Fin 0\<rparr>)
                 (Id' t) \<lparr>Stage = nextStage st, Opacity = Fin 1\<rparr>\<rparr>
      | hide_t \<Rightarrow>
          st\<lparr>kframes :=
               appendKf (appendKf m (Id' t) \<lparr>Stage = currentStage st, Opacity = Fin 1\<rparr>)
                 (Id' t) \<lparr>Stage = nextStage st, Opacity = Fin 0\<rparr>\<rparr>)"

fun kloop :: "float32 \<Rightarrow> token list \<Rightarrow> kstate \<Rightarrow> kstate" where
  "kloop step [] st = st"
| "kloop step (t # ts) st = kloop step ts (kstep step st t)"

text \<open>
  The closing loop (lines 158-160): every entry gets a last keyframe at stage 100 with
  the opacity of the one before; \<^verbatim>\<open>v[len(v)-1]\<close> panics on an empty slice. Each entry is
  changed on its own, so the order of the range does not show in the result.
\<close>

fun closeAll :: "keyframes \<Rightarrow> panic + keyframes" where
  "closeAll [] = Inr []"
| "closeAll ((k, v) # m) =
     (case index v (int (length v) - 1) of
        Inl p \<Rightarrow> Inl p
      | Inr l \<Rightarrow>
          (case closeAll m of
             Inl p \<Rightarrow> Inl p
           | Inr m' \<Rightarrow> Inr ((k, v @ [\<lparr>Stage = Fin 100, Opacity = Opacity l\<rparr>]) # m')))"

text \<open>\<^verbatim>\<open>calculateKeyframes\<close> (lines 132-163).\<close>

definition calculateKeyframes :: "token list \<Rightarrow> float32 \<Rightarrow> panic + keyframes" where
  "calculateKeyframes tokens step =
     closeAll (kframes (kloop step tokens
       \<lparr>currentStage = Fin 0, nextStage = f32_add (Fin 0) step, kframes = []\<rparr>))"

section \<open>The CSS emitter\<close>

text \<open>
  The two templates of \<^verbatim>\<open>generateCssAnimation\<close> (lines 182 and 187-188), executed on
  an \<^verbatim>\<open>Animation\<close> and on a \<^verbatim>\<open>KeyframesCss\<close>. How \<^verbatim>\<open>text/template\<close> prints a
  \<^verbatim>\<open>float32\<close> (\<^verbatim>\<open>fmt\<close>'s shortest decimal that reads back as the same number) is the
  parameter \<open>fmtF\<close>.
\<close>

definition animationTemplate :: "string \<Rightarrow> string \<Rightarrow> go_int \<Rightarrow> string" where
  "animationTemplate ObjectId Name TotalMs =
     ''#'' @ ObjectId @ '' { animation: '' @ Name @ '' '' @ itoa (sint TotalMs) @
     ''ms linear infinite normal forwards; } ''"

definition keyframeText :: "(float32 \<Rightarrow> string) \<Rightarrow> keyframe \<Rightarrow> string" where
  "keyframeText fmtF kf = fmtF (Stage kf) @ ''% { opacity: '' @ fmtF (Opacity kf) @ ''; } ''"

definition keyframesTemplate :: "(float32 \<Rightarrow> string) \<Rightarrow> string \<Rightarrow> keyframe list \<Rightarrow> string" where
  "keyframesTemplate fmtF AnimationName Keyframes =
     ''@keyframes '' @ AnimationName @ '' { '' @ concat (map (keyframeText fmtF) Keyframes) @ ''}''"

text \<open>
  The loop of \<^verbatim>\<open>generateCssAnimation\<close> (lines 197-213) over the entries of the map in
  the order the range visits them, with the builder and \<^verbatim>\<open>animationCounter\<close>.
\<close>

fun emitLoop ::
  "(float32 \<Rightarrow> string) \<Rightarrow> go_int \<Rightarrow> keyframes \<Rightarrow> string \<Rightarrow> go_int \<Rightarrow> string" where
  "emitLoop fmtF totalMs [] builder animationCounter = builder"
| "emitLoop fmtF totalMs ((k, v) # kvs) builder animationCounter =
     (let animName = ''anim'' @ itoa (sint animationCounter);
          builder1 = builder @ animationTemplate (''cell-'' @ k) animName totalMs;
          builder2 = builder1 @ keyframesTemplate fmtF animName v
      in emitLoop fmtF totalMs kvs builder2 (animationCounter + 1))"

text \<open>
  \<^verbatim>\<open>generateCssAnimation\<close> (lines 176-217); \<open>visited\<close> is the map as the range of line 197
  goes through it.
\<close>

definition generateCssAnimation :: "(float32 \<Rightarrow> string) \<Rightarrow> keyframes \<Rightarrow> go_int \<Rightarrow> string" where
  "generateCssAnimation fmtF visited totalMs =
     emitLoop fmtF totalMs visited ''<style>'' 0 @ ''</style>''"

text \<open>
  \<^verbatim>\<open>addCssToSvg\<close> (lines 219-227). The loop of lines 221-223 reads \<^verbatim>\<open>svg[index]\<close>, which
  panics when the index is \<open>-1\<close> or reaches the length.
\<close>

function scanTag :: "string \<Rightarrow> int \<Rightarrow> panic + int" where
  "scanTag svg i =
     (case index svg i of
        Inl p \<Rightarrow> Inl p
      | Inr c \<Rightarrow> if c \<noteq> CHR ''>'' then scanTag svg (i + 1) else Inr i)"
  by pat_completeness auto
termination
  by (relation "measure (\<lambda>(svg, i). length svg - nat i)")
    (auto simp: index_def split: if_splits)

declare scanTag.simps [simp del]

definition addCssToSvg :: "string \<Rightarrow> string \<Rightarrow> panic + string" where
  "addCssToSvg svg css =
     (case scanTag svg (Index svg ''<svg'') of
        Inl p \<Rightarrow> Inl p
      | Inr i \<Rightarrow> Inr (take (nat (i + 1)) svg @ css @ drop (nat (i + 1)) svg))"

section \<open>The program\<close>

text \<open>
  How a run ends: \<^verbatim>\<open>main\<close> returns (the exit status is 0; the program never calls
  \<^verbatim>\<open>os.Exit\<close>), or a panic ends it (exit status 2).
\<close>

datatype ending = Returned | Panicked panic

fun exitStatus :: "ending \<Rightarrow> nat" where
  "exitStatus Returned = 0"
| "exitStatus (Panicked p) = 2"

text \<open>
  Lines 65-72 of \<^verbatim>\<open>main\<close> on \<^verbatim>\<open>os.Args\<close> (the program's name first): \<open>None\<close> when the
  usage message is printed, else the three paths.
\<close>

definition mainArgs :: "string list \<Rightarrow> panic + (string \<times> string \<times> string) option" where
  "mainArgs Args =
     (if length Args < 3 then Inr None
      else case index Args 1 of Inl p \<Rightarrow> Inl p | Inr inputSvgFile \<Rightarrow>
           (case index Args 2 of Inl p \<Rightarrow> Inl p | Inr inputAnimation \<Rightarrow>
           (case index Args 3 of Inl p \<Rightarrow> Inl p | Inr outputSvgFile \<Rightarrow>
              Inr (Some (inputSvgFile, inputAnimation, outputSvgFile)))))"

text \<open>
  \<^verbatim>\<open>main\<close> (lines 60-114). \<open>ReadFile\<close> gives the bytes of a file, none when it cannot be
  read (the error is dropped); \<open>rangeOrder\<close> is the order in which the range of line 197
  visits the map. The result is what the run did, and how it ended.
\<close>

definition main ::
  "(float32 \<Rightarrow> string) \<Rightarrow> (keyframes \<Rightarrow> keyframes) \<Rightarrow> (string \<Rightarrow> string) \<Rightarrow> string list
     \<Rightarrow> effect list \<times> ending" where
  "main fmtF rangeOrder ReadFile Args =
     (case mainArgs Args of
        Inl p \<Rightarrow> ([], Panicked p)
      | Inr None \<Rightarrow> ([Print_usage], Returned)
      | Inr (Some (inputSvgFile, inputAnimation, outputSvgFile)) \<Rightarrow>
          (case readLoop (ReadFile inputAnimation) [] of
             (out, Inl p) \<Rightarrow> (out, Panicked p)
           | (out, Inr tokens) \<Rightarrow>
               (let (step, totalMs) = calculateStep tokens;
                    out1 = out @ map Print_token tokens @ [Print_step step, Print_totalMs totalMs]
                in case calculateKeyframes tokens step of
                     Inl p \<Rightarrow> (out1, Panicked p)
                   | Inr keyframes \<Rightarrow>
                       (let css = generateCssAnimation fmtF (rangeOrder keyframes) totalMs in
                        case addCssToSvg (ReadFile inputSvgFile) css of
                          Inl p \<Rightarrow> (out1, Panicked p)
                        | Inr svg \<Rightarrow> (out1 @ [WriteFile outputSvgFile svg], Returned)))))"

section \<open>Notions the statements use\<close>

text \<open>The exact (unbounded) sum of the durations of the wait instructions.\<close>

definition waitSum :: "token list \<Rightarrow> int" where
  "waitSum tokens = sum_list (map (\<lambda>t. sint (Wait t)) (filter (\<lambda>t. Type t = wait_t) tokens))"

text \<open>The keyframe list of one object in the result of \<^verbatim>\<open>calculateKeyframes\<close>.\<close>

definition objectKeyframes :: "panic + keyframes \<Rightarrow> string \<Rightarrow> keyframe list option" where
  "objectKeyframes r k = (case r of Inl p \<Rightarrow> None | Inr m \<Rightarrow> map_of m k)"

text \<open>The tokens of the script \<^verbatim>\<open>show cell1\<close>, \<^verbatim>\<open>wait 1000\<close>, \<^verbatim>\<open>hide cell1\<close>.\<close>

definition script1 :: "token list" where
  "script1 =
     [\<lparr>Type = show_t, Id' = ''cell1'', Wait = 1000\<rparr>,
      \<lparr>Type = wait_t, Id' = [], Wait = 1000\<rparr>,
      \<lparr>Type = hide_t, Id' = ''cell1'', Wait = 1000\<rparr>]"

text \<open>
  What the loop of \<^verbatim>\<open>calculateKeyframes\<close> keeps true of its map: one entry per key, each a
  list that is not empty and starts at stage 0.
\<close>

definition entries_ok :: "keyframes \<Rightarrow> bool" where
  "entries_ok m =
     (distinct (map fst m) \<and> (\<forall>k v. map_of m k = Some v \<longrightarrow> v \<noteq> [] \<and> Stage (hd v) = Fin 0))"

text \<open>What the closing loop does to one entry.\<close>

definition closing :: "keyframe list \<Rightarrow> keyframe list" where
  "closing v = v @ [\<lparr>Stage = Fin 100, Opacity = Opacity (last v)\<rparr>]"

text \<open>
  The text \<^verbatim>\<open>generateCssAnimation\<close> writes for one entry of the map when
  \<^verbatim>\<open>animationCounter\<close> has the value \<open>counter\<close>: the animation rule, then the keyframes.
\<close>

definition objectRules ::
  "(float32 \<Rightarrow> string) \<Rightarrow> go_int \<Rightarrow> go_int \<Rightarrow> string \<times> keyframe list \<Rightarrow> string" where
  "objectRules fmtF totalMs counter kv =
     animationTemplate (''cell-'' @ fst kv) (''anim'' @ itoa (sint counter)) totalMs @
     keyframesTemplate fmtF (''anim'' @ itoa (sint counter)) (snd kv)"

text \<open>The tokens of the script \<^verbatim>\<open>show a\<close>, \<^verbatim>\<open>show b\<close>, \<^verbatim>\<open>wait 1000\<close>.\<close>

definition script2 :: "token list" where
  "script2 =
     [\<lparr>Type = show_t, Id' = ''a'', Wait = 1000\<rparr>,
      \<lparr>Type = show_t, Id' = ''b'', Wait = 1000\<rparr>,
      \<lparr>Type = wait_t, Id' = [], Wait = 1000\<rparr>]"

text \<open>
  The rounding of \<open>rnd\<close> in three steps, for the proofs: the exponent of the unit in the
  last place, that unit, and the rounded magnitude.
\<close>

definition ulpExp :: "rat \<Rightarrow> int" where
  "ulpExp a = max (ilog2 a) (- 126)"

definition ulp :: "rat \<Rightarrow> rat" where
  "ulp a = 2 powi (ulpExp a - 23)"

definition roundMag :: "rat \<Rightarrow> rat" where
  "roundMag a = of_int (rhe (a / ulp a)) * ulp a"

text \<open>
  A \<^verbatim>\<open>float32\<close> that is \<open>+Inf\<close>, or finite, not negative and a value that rounding leaves
  as it is.
\<close>

definition nnf :: "float32 \<Rightarrow> bool" where
  "nnf x = (case x of PInf \<Rightarrow> True | Fin q \<Rightarrow> 0 \<le> q \<and> q < 2 ^ 128 \<and> roundMag q = q | _ \<Rightarrow> False)"



section \<open>The sum of the waits and the step\<close>

lemma sumWaits_acc: "sumWaits ts acc = acc + word_of_int (waitSum ts)"
  by (induction ts arbitrary: acc) (auto simp: waitSum_def)

lemma total_wraps: "sint (snd (calculateStep ts)) = signed_take_bit 63 (waitSum ts)"
  by (simp add: calculateStep_def Let_def sumWaits_acc sint_sbintrunc')

text \<open>
  C1, as the code has it. \<^verbatim>\<open>calculateStep\<close> has no error to raise: for every instruction
  sequence whose wait durations sum to zero it returns the total 0 together with the step
  \<^verbatim>\<open>1000.0 / float32(0) * 100.0\<close>, which is \<open>+Inf\<close>.
\<close>

theorem calculateStep_zero_total:
  "waitSum tokens = 0 \<Longrightarrow> calculateStep tokens = (PInf, 0)"
proof -
  assume "waitSum tokens = 0"
  then have "sumWaits tokens 0 = 0"
    by (simp add: sumWaits_acc)
  moreover have "f32_mul (f32_div (Fin 1000) (f32_of_int 0)) (Fin 100) = PInf"
    by code_simp
  ultimately show ?thesis
    by (simp add: calculateStep_def)
qed

theorem calculateStep_zero_total_witness:
  "waitSum [\<lparr>Type = show_t, Id' = ''a'', Wait = 1000\<rparr>, \<lparr>Type = wait_t, Id' = [], Wait = 0\<rparr>] = 0
   \<and> calculateStep [\<lparr>Type = show_t, Id' = ''a'', Wait = 1000\<rparr>, \<lparr>Type = wait_t, Id' = [], Wait = 0\<rparr>]
       = (PInf, 0)"
proof -
  have h: "waitSum [\<lparr>Type = show_t, Id' = ''a'', Wait = 1000\<rparr>, \<lparr>Type = wait_t, Id' = [], Wait = 0\<rparr>] = 0"
    by (simp add: waitSum_def)
  show ?thesis
    using h calculateStep_zero_total [OF h] by simp
qed

text \<open>
  C1 as stated fails: for the script of the single line \<^verbatim>\<open>show a\<close> (no wait at all) no
  error is raised; the step is \<open>+Inf\<close> and it goes into the stage of a keyframe.
\<close>

theorem calculateStep_no_error_counterexample:
  "calculateStep [\<lparr>Type = show_t, Id' = ''a'', Wait = 1000\<rparr>] = (PInf, 0)
   \<and> calculateKeyframes [\<lparr>Type = show_t, Id' = ''a'', Wait = 1000\<rparr>] PInf =
       Inr [(''a'', [\<lparr>Stage = Fin 0, Opacity = Fin 0\<rparr>, \<lparr>Stage = Fin 0, Opacity = Fin 0\<rparr>,
                    \<lparr>Stage = PInf, Opacity = Fin 1\<rparr>, \<lparr>Stage = Fin 100, Opacity = Fin 1\<rparr>])]"
  by code_simp

text \<open>
  C7, as the code has it. \<^verbatim>\<open>totalMs\<close> is the sum of the wait durations in 64-bit two's
  complement: it is the exact sum whenever that sum lies in the range of \<^verbatim>\<open>int\<close>, and the
  sum wrapped around otherwise.
\<close>

theorem totalMs_is_sum_in_range:
  "sint (snd (calculateStep tokens)) = signed_take_bit 63 (waitSum tokens)
   \<and> (- (2 ^ 63) \<le> waitSum tokens \<and> waitSum tokens < 2 ^ 63
        \<longrightarrow> sint (snd (calculateStep tokens)) = waitSum tokens)"
proof -
  have "signed_take_bit 63 (waitSum tokens) = waitSum tokens"
    if "- (2 ^ 63) \<le> waitSum tokens" "waitSum tokens < 2 ^ 63"
    using that by (intro signed_take_bit_int_eq_self) simp_all
  then show ?thesis
    by (simp add: total_wraps)
qed

theorem totalMs_is_sum_in_range_witness:
  "- (2 ^ 63) \<le> waitSum [\<lparr>Type = wait_t, Id' = [], Wait = 500\<rparr>, \<lparr>Type = show_t, Id' = ''a'', Wait = 1000\<rparr>,
                          \<lparr>Type = wait_t, Id' = [], Wait = 1500\<rparr>]
   \<and> waitSum [\<lparr>Type = wait_t, Id' = [], Wait = 500\<rparr>, \<lparr>Type = show_t, Id' = ''a'', Wait = 1000\<rparr>,
              \<lparr>Type = wait_t, Id' = [], Wait = 1500\<rparr>] < 2 ^ 63
   \<and> sint (snd (calculateStep [\<lparr>Type = wait_t, Id' = [], Wait = 500\<rparr>,
                               \<lparr>Type = show_t, Id' = ''a'', Wait = 1000\<rparr>,
                               \<lparr>Type = wait_t, Id' = [], Wait = 1500\<rparr>])) = 2000"
proof -
  have h: "waitSum [\<lparr>Type = wait_t, Id' = [], Wait = 500\<rparr>, \<lparr>Type = show_t, Id' = ''a'', Wait = 1000\<rparr>,
                    \<lparr>Type = wait_t, Id' = [], Wait = 1500\<rparr>] = 2000"
    by (simp add: waitSum_def)
  show ?thesis
    using totalMs_is_sum_in_range
      [of "[\<lparr>Type = wait_t, Id' = [], Wait = 500\<rparr>, \<lparr>Type = show_t, Id' = ''a'', Wait = 1000\<rparr>,
            \<lparr>Type = wait_t, Id' = [], Wait = 1500\<rparr>]"]
    by (simp add: h)
qed

text \<open>
  C7 as stated fails: the script \<^verbatim>\<open>wait 9223372036854775807\<close>, \<^verbatim>\<open>wait 1\<close> has a positive
  wait; the exact sum is \<open>2^63\<close>, and \<^verbatim>\<open>totalMs\<close> is \<open>-2^63\<close>.
\<close>

theorem totalMs_overflow_counterexample:
  "readLoop (''wait 9223372036854775807'' @ [CHR 0x0A] @ ''wait 1'') [] =
     ([], Inr [\<lparr>Type = wait_t, Id' = [], Wait = 9223372036854775807\<rparr>,
               \<lparr>Type = wait_t, Id' = [], Wait = 1\<rparr>])
   \<and> waitSum [\<lparr>Type = wait_t, Id' = [], Wait = 9223372036854775807\<rparr>,
              \<lparr>Type = wait_t, Id' = [], Wait = 1\<rparr>] = 9223372036854775808
   \<and> sint (snd (calculateStep [\<lparr>Type = wait_t, Id' = [], Wait = 9223372036854775807\<rparr>,
                               \<lparr>Type = wait_t, Id' = [], Wait = 1\<rparr>])) = - 9223372036854775808"
  by code_simp

section \<open>The literal script\<close>

text \<open>
  C5, as the code has it. The script \<^verbatim>\<open>show cell1\<close>, \<^verbatim>\<open>wait 1000\<close>, \<^verbatim>\<open>hide cell1\<close> is
  read as three tokens, its total is 1000 and its step 100, and the keyframes of
  \<^verbatim>\<open>cell1\<close> are the six \<open>{0,0}, {0,0}, {100,1}, {100,1}, {200,0}, {100,0}\<close>: the hide
  after the wait appends \<open>{currentStage, 1}\<close> and \<open>{nextStage, 0}\<close> with
  \<open>nextStage = 100 + 100\<close>, and the closing keyframe follows.
\<close>

theorem script1_keyframes:
  "readLoop (''show cell1'' @ [CHR 0x0A] @ ''wait 1000'' @ [CHR 0x0A] @ ''hide cell1'' @ [CHR 0x0A]) []
     = ([], Inr script1)
   \<and> calculateStep script1 = (Fin 100, 1000)
   \<and> objectKeyframes (calculateKeyframes script1 (Fin 100)) ''cell1'' =
       Some [\<lparr>Stage = Fin 0, Opacity = Fin 0\<rparr>, \<lparr>Stage = Fin 0, Opacity = Fin 0\<rparr>,
             \<lparr>Stage = Fin 100, Opacity = Fin 1\<rparr>, \<lparr>Stage = Fin 100, Opacity = Fin 1\<rparr>,
             \<lparr>Stage = Fin 200, Opacity = Fin 0\<rparr>, \<lparr>Stage = Fin 100, Opacity = Fin 0\<rparr>]"
  by code_simp

text \<open>C5 as stated fails: the list of five keyframes is not what the compiler yields.\<close>

theorem script1_keyframes_counterexample:
  "objectKeyframes (calculateKeyframes script1 (fst (calculateStep script1))) ''cell1'' \<noteq>
     Some [\<lparr>Stage = Fin 0, Opacity = Fin 0\<rparr>, \<lparr>Stage = Fin 0, Opacity = Fin 0\<rparr>,
           \<lparr>Stage = Fin 100, Opacity = Fin 1\<rparr>, \<lparr>Stage = Fin 100, Opacity = Fin 1\<rparr>,
           \<lparr>Stage = Fin 100, Opacity = Fin 0\<rparr>]"
  by code_simp

section \<open>Lines with a missing field\<close>

lemma Split_no_sep: "sep \<notin> set s \<Longrightarrow> Split s sep = [s]"
  by (induction s) (auto simp: Let_def)

text \<open>
  C10, as the code has it. A line without a space is split into one piece, so
  \<^verbatim>\<open>tokens[1]\<close> in \<^verbatim>\<open>parseShow\<close> and \<^verbatim>\<open>parseHide\<close> panics with an index out of range;
  for a line that begins with \<^verbatim>\<open>show\<close> or \<^verbatim>\<open>hide\<close> the reading loop of \<^verbatim>\<open>main\<close> ends
  by that panic. There is no error value, and no line number is kept.
\<close>

theorem parse_missing_field_panics:
  "CHR '' '' \<notin> set line \<Longrightarrow>
     parseShow line = Inl IndexOutOfRange \<and> parseHide line = Inl IndexOutOfRange
     \<and> (HasPrefix line ''show'' \<or> HasPrefix line ''hide''
          \<longrightarrow> lineTokens line tokens = ([], Inl IndexOutOfRange))"
  by (auto simp: lineTokens_def parseShow_def parseHide_def Split_no_sep index_def)

theorem parse_missing_field_panics_witness:
  "CHR '' '' \<notin> set ''show'' \<and> HasPrefix ''show'' ''show''
   \<and> parseShow ''show'' = Inl IndexOutOfRange \<and> parseHide ''show'' = Inl IndexOutOfRange
   \<and> lineTokens ''show'' [] = ([], Inl IndexOutOfRange)"
proof -
  have h: "CHR '' '' \<notin> set ''show''"
    by simp
  have p: "HasPrefix ''show'' ''show''"
    by (simp add: HasPrefix_def)
  show ?thesis
    using h p parse_missing_field_panics [OF h, of "[]"] by simp
qed

text \<open>
  C10 as stated fails: on the script of the single line \<^verbatim>\<open>show\<close> the tokenizer does not
  fail with an error value; it panics, and so does \<^verbatim>\<open>parseHide\<close> on \<^verbatim>\<open>hide\<close>.
\<close>

theorem parse_missing_field_counterexample:
  "parseShow ''show'' = Inl IndexOutOfRange \<and> parseHide ''hide'' = Inl IndexOutOfRange
   \<and> readLoop ''show'' [] = ([], Inl IndexOutOfRange)"
  by code_simp

section \<open>Injection into a document without an \<^verbatim>\<open>svg\<close> tag\<close>

lemma Index_ge: "- 1 \<le> Index s sub"
  by (induction s) (auto simp: Let_def)

lemma Index_found: "0 \<le> Index s sub \<Longrightarrow> \<exists>pre post. s = pre @ sub @ post"
proof (induction s)
  case Nil
  then show ?case by (auto split: if_splits)
next
  case (Cons c s)
  show ?case
  proof (cases "HasPrefix (c # s) sub")
    case True
    then have "c # s = [] @ sub @ drop (length sub) (c # s)"
      unfolding HasPrefix_def by (metis append_Nil append_take_drop_id)
    then show ?thesis by blast
  next
    case False
    with Cons.prems have "0 \<le> Index s sub"
      by (auto simp: Let_def split: if_splits)
    then obtain pre post where "s = pre @ sub @ post"
      using Cons.IH by blast
    then have "c # s = (c # pre) @ sub @ post"
      by simp
    then show ?thesis by blast
  qed
qed

lemma Index_complete: "0 \<le> Index (pre @ sub @ post) sub"
proof (induction pre)
  case Nil
  have "HasPrefix (sub @ post) sub"
    by (simp add: HasPrefix_def)
  then show ?case
    by (cases "sub @ post") (simp_all add: HasPrefix_def)
next
  case (Cons a pre)
  then show ?case by (simp add: Let_def)
qed

lemma Index_absent: "(\<nexists>pre post. s = pre @ sub @ post) \<longleftrightarrow> Index s sub = - 1"
proof
  assume "\<nexists>pre post. s = pre @ sub @ post"
  then have "\<not> 0 \<le> Index s sub"
    using Index_found by blast
  with Index_ge [of s sub] show "Index s sub = - 1"
    by linarith
next
  assume none: "Index s sub = - 1"
  show "\<nexists>pre post. s = pre @ sub @ post"
  proof
    assume "\<exists>pre post. s = pre @ sub @ post"
    then obtain pre post where "s = pre @ sub @ post"
      by blast
    then have "0 \<le> Index s sub"
      using Index_complete by simp
    with none show False by simp
  qed
qed

text \<open>
  C2, as the code has it. For every input string that does not contain \<^verbatim>\<open><svg\<close>,
  \<^verbatim>\<open>strings.Index\<close> returns \<open>-1\<close> and the first \<^verbatim>\<open>svg[index]\<close> of \<^verbatim>\<open>addCssToSvg\<close> panics
  with an index out of range: no document is returned, nothing past the end of the text is
  read, and there is no error value.
\<close>

theorem addCssToSvg_without_tag_panics:
  "\<nexists>pre post. svg = pre @ ''<svg'' @ post \<Longrightarrow> addCssToSvg svg css = Inl IndexOutOfRange"
  by (subst (asm) Index_absent) (simp add: addCssToSvg_def scanTag.simps [of svg "- 1"] index_def)

theorem addCssToSvg_without_tag_panics_witness:
  "(\<nexists>pre post. ''<html></html>'' = pre @ ''<svg'' @ post)
   \<and> addCssToSvg ''<html></html>'' ''<style></style>'' = Inl IndexOutOfRange"
proof -
  have "Index ''<html></html>'' ''<svg'' = - 1"
    by code_simp
  then have h: "\<nexists>pre post. ''<html></html>'' = pre @ ''<svg'' @ post"
    by (simp only: Index_absent)
  show ?thesis
    using h addCssToSvg_without_tag_panics [OF h, of "''<style></style>''"] by blast
qed

text \<open>
  C2 as stated fails: injecting into \<^verbatim>\<open><html></html>\<close> is a panic (the crash the claim
  excludes), not an error value.
\<close>

theorem addCssToSvg_without_tag_counterexample:
  "addCssToSvg ''<html></html>'' ''<style></style>'' = Inl IndexOutOfRange"
  by code_simp

section \<open>The arguments of the program\<close>

text \<open>
  C8, as the code has it. With fewer than two positional arguments (\<^verbatim>\<open>len(os.Args) < 3\<close>)
  \<^verbatim>\<open>main\<close> prints the usage message and returns, so the exit status is 0 and no file is
  written; with three positional arguments or more, reading \<^verbatim>\<open>os.Args[1]\<close>,
  \<^verbatim>\<open>os.Args[2]\<close> and \<^verbatim>\<open>os.Args[3]\<close> does not panic and gives the three paths.
\<close>

theorem main_arguments:
  "(length Args < 3 \<longrightarrow>
      main fmtF rangeOrder ReadFile Args = ([Print_usage], Returned)
      \<and> exitStatus (snd (main fmtF rangeOrder ReadFile Args)) = 0)
   \<and> (4 \<le> length Args \<longrightarrow> mainArgs Args = Inr (Some (Args ! 1, Args ! 2, Args ! 3)))"
  by (simp add: main_def mainArgs_def index_def)

theorem main_arguments_witness:
  "length [''animation-translater'', ''in.svg''] < 3
   \<and> main (\<lambda>x. []) id (\<lambda>path. []) [''animation-translater'', ''in.svg''] = ([Print_usage], Returned)
   \<and> 4 \<le> length [''animation-translater'', ''in.svg'', ''script'', ''out.svg'']
   \<and> mainArgs [''animation-translater'', ''in.svg'', ''script'', ''out.svg''] =
       Inr (Some (''in.svg'', ''script'', ''out.svg''))"
  using main_arguments [of "[''animation-translater'', ''in.svg'']" "\<lambda>x. []" id "\<lambda>path. []"]
    main_arguments [of "[''animation-translater'', ''in.svg'', ''script'', ''out.svg'']"]
  by simp

text \<open>
  C8 as stated fails: with one positional argument (fewer than three) the usage message is
  printed and the exit status is 0, whatever the files hold.
\<close>

theorem main_usage_exit_counterexample:
  "\<not> (\<forall>fmtF rangeOrder ReadFile.
        exitStatus (snd (main fmtF rangeOrder ReadFile [''animation-translater'', ''in.svg''])) \<noteq> 0)"
  by (simp add: main_def mainArgs_def)

section \<open>The keyframes of a referenced object\<close>

lemma map_of_appendKf: "map_of (appendKf m k kf) = (map_of m)(k \<mapsto> lookup m k @ [kf])"
  by (simp add: appendKf_def update_conv')

lemma distinct_appendKf: "distinct (map fst m) \<Longrightarrow> distinct (map fst (appendKf m k kf))"
  by (simp add: appendKf_def distinct_update)

lemma entries_ok_appendKf:
  assumes "entries_ok m" and "map_of m k \<noteq> None"
  shows "entries_ok (appendKf m k kf)"
proof -
  obtain v where v: "map_of m k = Some v"
    using assms(2) by blast
  with assms(1) have "v \<noteq> []" "Stage (hd v) = Fin 0"
    unfolding entries_ok_def by blast+
  then have "lookup m k @ [kf] \<noteq> [] \<and> Stage (hd (lookup m k @ [kf])) = Fin 0"
    by (simp add: lookup_def v)
  with assms(1) show ?thesis
    unfolding entries_ok_def
    by (simp only: map_of_appendKf distinct_appendKf) (simp add: distinct_appendKf)
qed

lemma entries_ok_seed: "entries_ok m \<Longrightarrow> entries_ok (seed m t)"
proof (cases "(Type t = show_t \<or> Type t = hide_t) \<and> map_of m (Id' t) = None")
  case False
  assume "entries_ok m"
  with False show ?thesis by (auto simp: seed_def)
next
  case True
  assume ok: "entries_ok m"
  let ?m = "AList.update (Id' t) [] m"
  have eq: "seed m t = appendKf ?m (Id' t) \<lparr>Stage = Fin 0, Opacity = Fin 0\<rparr>"
    using True by (auto simp: seed_def)
  have "map_of (seed m t) = (map_of m)(Id' t \<mapsto> [\<lparr>Stage = Fin 0, Opacity = Fin 0\<rparr>])"
    unfolding eq by (simp add: map_of_appendKf update_conv' lookup_def)
  moreover have "distinct (map fst (seed m t))"
    unfolding eq using ok by (simp add: entries_ok_def distinct_appendKf distinct_update)
  ultimately show ?thesis
    using ok unfolding entries_ok_def by simp
qed

lemma dom_seed: "dom (map_of m) \<subseteq> dom (map_of (seed m t))"
  by (auto simp: seed_def map_of_appendKf update_conv')

lemma seed_has: "Type t = show_t \<or> Type t = hide_t \<Longrightarrow> map_of (seed m t) (Id' t) \<noteq> None"
  by (auto simp: seed_def map_of_appendKf update_conv')

lemma kstep_ok: "entries_ok (kframes st) \<Longrightarrow> entries_ok (kframes (kstep step st t))"
  by (cases "Type t")
    (auto simp: kstep_def Let_def entries_ok_seed entries_ok_appendKf seed_has map_of_appendKf)

lemma kstep_dom: "dom (map_of (kframes st)) \<subseteq> dom (map_of (kframes (kstep step st t)))"
  using dom_seed [of "kframes st" t]
  by (cases "Type t") (auto simp: kstep_def Let_def map_of_appendKf)

lemma kstep_has:
  "Type t = show_t \<or> Type t = hide_t \<Longrightarrow> Id' t \<in> dom (map_of (kframes (kstep step st t)))"
  by (auto simp: kstep_def Let_def map_of_appendKf)

lemma kloop_ok: "entries_ok (kframes st) \<Longrightarrow> entries_ok (kframes (kloop step ts st))"
  by (induction ts arbitrary: st) (auto simp: kstep_ok)

lemma kloop_dom: "dom (map_of (kframes st)) \<subseteq> dom (map_of (kframes (kloop step ts st)))"
proof (induction ts arbitrary: st)
  case Nil
  then show ?case by simp
next
  case (Cons t ts)
  show ?case
    using kstep_dom [of st step t] Cons.IH [of "kstep step st t"] by auto
qed

lemma kloop_has:
  "t \<in> set ts \<Longrightarrow> Type t = show_t \<or> Type t = hide_t \<Longrightarrow>
     Id' t \<in> dom (map_of (kframes (kloop step ts st)))"
proof (induction ts arbitrary: st)
  case Nil
  then show ?case by simp
next
  case (Cons a ts)
  show ?case
  proof (cases "t = a")
    case True
    then have "Id' t \<in> dom (map_of (kframes (kstep step st a)))"
      using Cons.prems kstep_has by blast
    then show ?thesis
      using kloop_dom [of "kstep step st a" step ts] by auto
  next
    case False
    then show ?thesis using Cons by auto
  qed
qed

lemma closeAll_ok:
  "\<forall>(k, v) \<in> set m. v \<noteq> [] \<Longrightarrow> closeAll m = Inr (map (\<lambda>(k, v). (k, closing v)) m)"
proof (induction m)
  case Nil
  then show ?case by simp
next
  case (Cons e m)
  obtain k v where e: "e = (k, v)" by (cases e)
  with Cons.prems have "v \<noteq> []" by simp
  then have "index v (int (length v) - 1) = Inr (last v)"
    by (simp add: index_def last_conv_nth nat_diff_distrib')
  then show ?case using Cons e by (simp add: closing_def)
qed

lemma map_of_closed: "map_of (map (\<lambda>(k, v). (k, closing v)) m) k = map_option closing (map_of m k)"
  by (induction m) auto

lemma objectKeyframes_closing:
  "objectKeyframes (calculateKeyframes tokens step) k =
     map_option closing (map_of (kframes (kloop step tokens
       \<lparr>currentStage = Fin 0, nextStage = f32_add (Fin 0) step, kframes = []\<rparr>)) k)"
proof -
  define m where "m = kframes (kloop step tokens
       \<lparr>currentStage = Fin 0, nextStage = f32_add (Fin 0) step, kframes = []\<rparr>)"
  have ok: "entries_ok m"
    unfolding m_def by (rule kloop_ok) (simp add: entries_ok_def)
  have "v \<noteq> []" if "(k, v) \<in> set m" for k v
  proof -
    from ok that have "map_of m k = Some v"
      by (simp add: entries_ok_def)
    with ok show ?thesis
      unfolding entries_ok_def by blast
  qed
  then have "closeAll m = Inr (map (\<lambda>(k, v). (k, closing v)) m)"
    by (intro closeAll_ok) blast
  then show ?thesis
    by (simp add: calculateKeyframes_def m_def [symmetric] objectKeyframes_def map_of_closed)
qed

text \<open>
  C6. For every instruction sequence, every step and every object that a show or a hide
  instruction refers to, \<^verbatim>\<open>calculateKeyframes\<close> returns (it does not panic), the keyframe
  list of the object is not empty, its first entry has stage 0 and its last entry has
  stage 100.
\<close>

theorem referenced_object_keyframes:
  assumes "t \<in> set tokens" and "Type t = show_t \<or> Type t = hide_t"
  shows "\<exists>kfs. objectKeyframes (calculateKeyframes tokens step) (Id' t) = Some kfs
           \<and> kfs \<noteq> [] \<and> Stage (hd kfs) = Fin 0 \<and> Stage (last kfs) = Fin 100"
proof -
  define m where "m = kframes (kloop step tokens
       \<lparr>currentStage = Fin 0, nextStage = f32_add (Fin 0) step, kframes = []\<rparr>)"
  have ok: "entries_ok m"
    unfolding m_def by (rule kloop_ok) (simp add: entries_ok_def)
  have res: "objectKeyframes (calculateKeyframes tokens step) (Id' t) = map_option closing (map_of m (Id' t))"
    unfolding m_def by (rule objectKeyframes_closing)
  obtain v where v: "map_of m (Id' t) = Some v"
    using kloop_has [OF assms] unfolding m_def by blast
  with ok have "v \<noteq> []" "Stage (hd v) = Fin 0"
    unfolding entries_ok_def by blast+
  then have "closing v \<noteq> [] \<and> Stage (hd (closing v)) = Fin 0 \<and> Stage (last (closing v)) = Fin 100"
    by (simp add: closing_def)
  with res v show ?thesis by simp
qed

theorem referenced_object_keyframes_witness:
  "\<lparr>Type = hide_t, Id' = ''cell1'', Wait = 1000\<rparr> \<in> set script1
   \<and> (\<exists>kfs. objectKeyframes (calculateKeyframes script1 (Fin 100)) ''cell1'' = Some kfs
          \<and> kfs \<noteq> [] \<and> Stage (hd kfs) = Fin 0 \<and> Stage (last kfs) = Fin 100)"
proof -
  have h: "\<lparr>Type = hide_t, Id' = ''cell1'', Wait = 1000\<rparr> \<in> set script1"
    by (simp add: script1_def)
  show ?thesis
    using h referenced_object_keyframes [OF h, of "Fin 100"] by simp
qed

section \<open>The output of the emitter\<close>

lemma emitLoop_closed:
  "emitLoop fmtF totalMs kvs builder c =
     builder @ concat (map (\<lambda>(i, kv). objectRules fmtF totalMs (c + of_nat i) kv)
                        (zip [0..<length kvs] kvs))"
proof (induction kvs arbitrary: builder c)
  case Nil
  then show ?case by simp
next
  case (Cons kv kvs)
  obtain k v where kv: "kv = (k, v)" by (cases kv)
  have shift: "zip [0..<Suc (length kvs)] (kv # kvs) =
      (0, kv) # map (\<lambda>(i, x). (Suc i, x)) (zip [0..<length kvs] kvs)"
    by (simp add: upt_conv_Cons map_Suc_upt [symmetric] zip_map1 del: upt_Suc)
  show ?case
    unfolding kv emitLoop.simps Let_def Cons.IH
    using shift unfolding kv
    by (simp add: objectRules_def o_def split_def ac_simps del: upt_Suc)
qed

text \<open>
  C3, as the code has it. The output of \<^verbatim>\<open>generateCssAnimation\<close> is a function of the
  timeline, the total and the order in which the range of line 197 visits the map, which
  Go does not fix: it is \<^verbatim>\<open><style>\<close>, then for the \<open>i\<close>-th entry visited (from 0) its
  animation rule and its keyframes under the name \<^verbatim>\<open>anim\<close>\<open>i\<close>, then \<^verbatim>\<open></style>\<close>. So two
  runs that visit the objects in the same order write the same bytes.
\<close>

theorem generateCssAnimation_by_visit_order: "generateCssAnimation fmtF visited totalMs =
     ''<style>'' @
     concat (map (\<lambda>(i, kv). objectRules fmtF totalMs (of_nat i) kv) (zip [0..<length visited] visited)) @
     ''</style>''"
  by (simp add: generateCssAnimation_def emitLoop_closed)

text \<open>
  C3 as stated fails: the timeline of \<^verbatim>\<open>show a\<close>, \<^verbatim>\<open>show b\<close>, \<^verbatim>\<open>wait 1000\<close> has two
  objects, and the two orders in which a range can visit them give different bytes,
  however a \<^verbatim>\<open>float32\<close> is printed.
\<close>

theorem generateCssAnimation_order_counterexample:
  "calculateKeyframes script2 (fst (calculateStep script2)) =
     Inr [(''a'', [\<lparr>Stage = Fin 0, Opacity = Fin 0\<rparr>, \<lparr>Stage = Fin 0, Opacity = Fin 0\<rparr>,
                  \<lparr>Stage = Fin 100, Opacity = Fin 1\<rparr>, \<lparr>Stage = Fin 100, Opacity = Fin 1\<rparr>]),
          (''b'', [\<lparr>Stage = Fin 0, Opacity = Fin 0\<rparr>, \<lparr>Stage = Fin 0, Opacity = Fin 0\<rparr>,
                  \<lparr>Stage = Fin 100, Opacity = Fin 1\<rparr>, \<lparr>Stage = Fin 100, Opacity = Fin 1\<rparr>])]
   \<and> (\<forall>fmtF.
        generateCssAnimation fmtF
          [(''a'', [\<lparr>Stage = Fin 0, Opacity = Fin 0\<rparr>, \<lparr>Stage = Fin 0, Opacity = Fin 0\<rparr>,
                  \<lparr>Stage = Fin 100, Opacity = Fin 1\<rparr>, \<lparr>Stage = Fin 100, Opacity = Fin 1\<rparr>]),
           (''b'', [\<lparr>Stage = Fin 0, Opacity = Fin 0\<rparr>, \<lparr>Stage = Fin 0, Opacity = Fin 0\<rparr>,
                  \<lparr>Stage = Fin 100, Opacity = Fin 1\<rparr>, \<lparr>Stage = Fin 100, Opacity = Fin 1\<rparr>])] 1000
        \<noteq> generateCssAnimation fmtF
          [(''b'', [\<lparr>Stage = Fin 0, Opacity = Fin 0\<rparr>, \<lparr>Stage = Fin 0, Opacity = Fin 0\<rparr>,
                  \<lparr>Stage = Fin 100, Opacity = Fin 1\<rparr>, \<lparr>Stage = Fin 100, Opacity = Fin 1\<rparr>]),
           (''a'', [\<lparr>Stage = Fin 0, Opacity = Fin 0\<rparr>, \<lparr>Stage = Fin 0, Opacity = Fin 0\<rparr>,
                  \<lparr>Stage = Fin 100, Opacity = Fin 1\<rparr>, \<lparr>Stage = Fin 100, Opacity = Fin 1\<rparr>])] 1000)"
proof -
  have 1: "calculateKeyframes script2 (fst (calculateStep script2)) =
     Inr [(''a'', [\<lparr>Stage = Fin 0, Opacity = Fin 0\<rparr>, \<lparr>Stage = Fin 0, Opacity = Fin 0\<rparr>,
                  \<lparr>Stage = Fin 100, Opacity = Fin 1\<rparr>, \<lparr>Stage = Fin 100, Opacity = Fin 1\<rparr>]),
          (''b'', [\<lparr>Stage = Fin 0, Opacity = Fin 0\<rparr>, \<lparr>Stage = Fin 0, Opacity = Fin 0\<rparr>,
                  \<lparr>Stage = Fin 100, Opacity = Fin 1\<rparr>, \<lparr>Stage = Fin 100, Opacity = Fin 1\<rparr>])]"
    by code_simp
  show ?thesis
    unfolding 1 by (simp add: generateCssAnimation_def animationTemplate_def)
qed

section \<open>A wait whose field is not an integer\<close>

lemma Atoi_syntax_zero: "snd (Atoi s) = Some ErrSyntax \<Longrightarrow> fst (Atoi s) = 0"
  by (auto simp: Atoi_def Let_def split: if_splits prod.splits)

lemma Atoi_range_bound:
  "snd (Atoi s) = Some ErrRange \<Longrightarrow> sint (fst (Atoi s)) = 2 ^ 63 - 1 \<or> sint (fst (Atoi s)) = - (2 ^ 63)"
  by (auto simp: Atoi_def Let_def split: if_splits prod.splits)

lemma wait_prefix_only:
  "HasPrefix line ''wait'' \<Longrightarrow> \<not> HasPrefix line ''show'' \<and> \<not> HasPrefix line ''hide''"
  by (auto simp: HasPrefix_def)

lemma sumWaits_append: "sumWaits (ts @ ts') acc = sumWaits ts' (sumWaits ts acc)"
  by (induction ts arbitrary: acc) auto

text \<open>
  C9, as the code has it. For a line whose second field (between the first and the second
  space) \<^verbatim>\<open>Atoi\<close> rejects with a syntax error, \<^verbatim>\<open>parseWait\<close> prints the error and returns
  a wait of duration 0; when the line begins with \<^verbatim>\<open>wait\<close> the loop appends it and goes
  on, and the token adds nothing to \<^verbatim>\<open>totalMs\<close>. For a field \<^verbatim>\<open>Atoi\<close> rejects as out of
  range the error is printed as well, and the token carries the value \<^verbatim>\<open>Atoi\<close> returned,
  the bound of \<^verbatim>\<open>int64\<close> nearest to the number.
\<close>

theorem parseWait_invalid_field:
  assumes field: "index (Split line (CHR '' '')) 1 = Inr field"
  shows "(snd (Atoi field) = Some ErrSyntax \<longrightarrow>
            parseWait line =
              ([Print_wait_error field ErrSyntax], Inr \<lparr>Type = wait_t, Id' = [], Wait = 0\<rparr>)
            \<and> (HasPrefix line ''wait'' \<longrightarrow>
                 lineTokens line tokens =
                   ([Print_wait_error field ErrSyntax],
                    Inr (tokens @ [\<lparr>Type = wait_t, Id' = [], Wait = 0\<rparr>])))
            \<and> snd (calculateStep (ts @ [\<lparr>Type = wait_t, Id' = [], Wait = 0\<rparr>] @ ts')) =
                snd (calculateStep (ts @ ts')))
       \<and> (snd (Atoi field) = Some ErrRange \<longrightarrow>
            parseWait line =
              ([Print_wait_error field ErrRange],
               Inr \<lparr>Type = wait_t, Id' = [], Wait = fst (Atoi field)\<rparr>)
            \<and> (sint (fst (Atoi field)) = 2 ^ 63 - 1 \<or> sint (fst (Atoi field)) = - (2 ^ 63)))"
proof (intro conjI impI)
  assume err: "snd (Atoi field) = Some ErrSyntax"
  obtain v e where a: "Atoi field = (v, e)"
    by (cases "Atoi field")
  with err Atoi_syntax_zero [OF err] have "v = 0" "e = Some ErrSyntax"
    by simp_all
  with a field show p: "parseWait line =
      ([Print_wait_error field ErrSyntax], Inr \<lparr>Type = wait_t, Id' = [], Wait = 0\<rparr>)"
    by (simp add: parseWait_def)
  show "lineTokens line tokens =
      ([Print_wait_error field ErrSyntax], Inr (tokens @ [\<lparr>Type = wait_t, Id' = [], Wait = 0\<rparr>]))"
    if "HasPrefix line ''wait''"
    using wait_prefix_only [OF that] that by (simp add: lineTokens_def p)
  have "sumWaits (ts @ [\<lparr>Type = wait_t, Id' = [], Wait = 0\<rparr>] @ ts') 0 = sumWaits (ts @ ts') 0"
    by (simp add: sumWaits_append)
  then show "snd (calculateStep (ts @ [\<lparr>Type = wait_t, Id' = [], Wait = 0\<rparr>] @ ts')) =
      snd (calculateStep (ts @ ts'))"
    by (simp add: calculateStep_def)
next
  assume err: "snd (Atoi field) = Some ErrRange"
  obtain v e where a: "Atoi field = (v, e)"
    by (cases "Atoi field")
  with err field show "parseWait line =
      ([Print_wait_error field ErrRange], Inr \<lparr>Type = wait_t, Id' = [], Wait = fst (Atoi field)\<rparr>)"
    by (simp add: parseWait_def)
  show "sint (fst (Atoi field)) = 2 ^ 63 - 1 \<or> sint (fst (Atoi field)) = - (2 ^ 63)"
    using Atoi_range_bound [OF err] .
qed

theorem parseWait_invalid_field_witness:
  "index (Split ''wait abc'' (CHR '' '')) 1 = Inr ''abc'' \<and> snd (Atoi ''abc'') = Some ErrSyntax
   \<and> HasPrefix ''wait abc'' ''wait''
   \<and> lineTokens ''wait abc'' [] =
        ([Print_wait_error ''abc'' ErrSyntax], Inr [\<lparr>Type = wait_t, Id' = [], Wait = 0\<rparr>])
   \<and> index (Split ''wait 9223372036854775808'' (CHR '' '')) 1 = Inr ''9223372036854775808''
   \<and> snd (Atoi ''9223372036854775808'') = Some ErrRange
   \<and> parseWait ''wait 9223372036854775808'' =
        ([Print_wait_error ''9223372036854775808'' ErrRange],
         Inr \<lparr>Type = wait_t, Id' = [], Wait = fst (Atoi ''9223372036854775808'')\<rparr>)"
proof -
  have f: "index (Split ''wait abc'' (CHR '' '')) 1 = Inr ''abc''"
    by code_simp
  have e: "snd (Atoi ''abc'') = Some ErrSyntax"
    by code_simp
  have p: "HasPrefix ''wait abc'' ''wait''"
    by (simp add: HasPrefix_def)
  have f': "index (Split ''wait 9223372036854775808'' (CHR '' '')) 1 = Inr ''9223372036854775808''"
    by code_simp
  have e': "snd (Atoi ''9223372036854775808'') = Some ErrRange"
    by code_simp
  show ?thesis
    using f e p f' e' parseWait_invalid_field [OF f, of "[]"] parseWait_invalid_field [OF f']
    by simp
qed

text \<open>
  C9 as stated fails: the field of \<^verbatim>\<open>wait 9223372036854775808\<close> is no valid \<^verbatim>\<open>int\<close>
  (\<^verbatim>\<open>Atoi\<close> returns an error, which is printed), and the wait adds \<open>2^63 - 1\<close> to the total,
  not zero.
\<close>

theorem parseWait_range_counterexample:
  "HasPrefix ''wait 9223372036854775808'' ''wait''
   \<and> parseWait ''wait 9223372036854775808'' =
       ([Print_wait_error ''9223372036854775808'' ErrRange],
        Inr \<lparr>Type = wait_t, Id' = [], Wait = 9223372036854775807\<rparr>)
   \<and> snd (calculateStep [\<lparr>Type = wait_t, Id' = [], Wait = 9223372036854775807\<rparr>]) =
       9223372036854775807"
  by code_simp

section \<open>Rounding to \<^verbatim>\<open>float32\<close> keeps the order\<close>




































lemma f32_le_PInf_eq: "f32_le PInf x \<Longrightarrow> nnf x \<Longrightarrow> x = PInf"
  by (cases x) (simp_all add: nnf_def)







section \<open>The order of the stages of an object\<close>












end
